theory Spec2Isabelle
  imports Main "HOL-Library.Sublist"
begin

section \<open>Strings\<close>

text \<open>
  A Python \<open>str\<close> is a sequence of Unicode code points, and every comparison the program
  makes on strings (in Python and in the SQLite \<open>=\<close> on a \<open>TEXT\<close> column with the default
  collation) is code point by code point. A string is therefore a list of code points.
  \<open>ascii\<close> writes an ASCII literal as such a list.
\<close>

type_synonym codepoint = nat
type_synonym pystr = "codepoint list"

definition ascii :: "string \<Rightarrow> pystr" where
  "ascii s = map of_char s"

section \<open>The regular expression of \<open>is_valid_email\<close>\<close>

text \<open>
  The pattern of the source is \<^verbatim>\<open>^[\w\.-]+@[\w\.-]+\.\w+$\<close>, a sequence of seven items of
  four kinds: the anchor \<^verbatim>\<open>^\<close>, the anchor \<^verbatim>\<open>$\<close>, a literal character, and
  one-or-more characters of a class.

  \<open>re_run\<close> is the backtracking search of \<open>re.match\<close>, on the rest of the subject string;
  the flag says whether the position is the start of the string. A repetition first tries
  to take one more character and then to go on with the rest of the pattern. Without
  \<open>re.MULTILINE\<close>, \<^verbatim>\<open>$\<close> matches at the end of the string and also just before a
  newline (code point 10) that is the last character of the string. \<open>re.match\<close> succeeds
  as soon as the pattern is used up.
\<close>

datatype re_item = AtStart | AtEnd | Lit codepoint | OneOrMore "codepoint \<Rightarrow> bool"

fun re_run :: "re_item list \<Rightarrow> bool \<Rightarrow> pystr \<Rightarrow> bool" where
  "re_run [] b s = True"
| "re_run (AtStart # r) b s = (b \<and> re_run r b s)"
| "re_run (AtEnd # r) b s = ((s = [] \<or> s = [10]) \<and> re_run r b s)"
| "re_run (Lit c # r) b [] = False"
| "re_run (Lit c # r) b (x # xs) = (x = c \<and> re_run r False xs)"
| "re_run (OneOrMore p # r) b [] = False"
| "re_run (OneOrMore p # r) b (x # xs) =
     (p x \<and> (re_run (OneOrMore p # r) False xs \<or> re_run r False xs))"

definition re_match :: "re_item list \<Rightarrow> pystr \<Rightarrow> bool" where
  \<comment> \<open>\<open>re.match(pattern, s) is not None\<close>\<close>
  "re_match pat s = re_run pat True s"

text \<open>
  For a \<open>str\<close> pattern, \<^verbatim>\<open>\w\<close> is a character for which \<open>str.isalnum\<close> holds, or the
  underscore. Below 128, \<open>isalnum\<close> holds of the digits and the letters. Above, it is a
  table of the Unicode database, which is not part of the program: the table is the
  parameter \<open>U\<close> of everything that follows.
\<close>

definition ascii_alnum :: "codepoint \<Rightarrow> bool" where
  "ascii_alnum c = ((48 \<le> c \<and> c \<le> 57) \<or> (65 \<le> c \<and> c \<le> 90) \<or> (97 \<le> c \<and> c \<le> 122))"

definition isalnum :: "(codepoint \<Rightarrow> bool) \<Rightarrow> codepoint \<Rightarrow> bool" where
  "isalnum U c = (if c < 128 then ascii_alnum c else U c)"

definition word_char :: "(codepoint \<Rightarrow> bool) \<Rightarrow> codepoint \<Rightarrow> bool" where
  \<comment> \<open>\<^verbatim>\<open>\w\<close>\<close>
  "word_char U c = (isalnum U c \<or> c = 95)"

definition word_dot_hyphen :: "(codepoint \<Rightarrow> bool) \<Rightarrow> codepoint \<Rightarrow> bool" where
  \<comment> \<open>\<^verbatim>\<open>[\w\.-]\<close>\<close>
  "word_dot_hyphen U c = (word_char U c \<or> c = 46 \<or> c = 45)"

definition EMAIL_PATTERN :: "(codepoint \<Rightarrow> bool) \<Rightarrow> re_item list" where
  "EMAIL_PATTERN U =
     [AtStart, OneOrMore (word_dot_hyphen U), Lit 64, OneOrMore (word_dot_hyphen U),
      Lit 46, OneOrMore (word_char U), AtEnd]"

definition is_valid_email :: "(codepoint \<Rightarrow> bool) \<Rightarrow> pystr \<Rightarrow> bool" where
  "is_valid_email U email = re_match (EMAIL_PATTERN U) email"

text \<open>
  An instance of the table for the concrete runs below, which are all on ASCII strings,
  where the table is never consulted.
\<close>

definition ascii_only :: "codepoint \<Rightarrow> bool" where
  "ascii_only c = False"

section \<open>The record store\<close>

text \<open>
  The table \<open>users\<close> of \<open>create_db\<close>: \<open>id INTEGER PRIMARY KEY AUTOINCREMENT\<close>,
  \<open>email TEXT NOT NULL UNIQUE\<close>, \<open>api_token TEXT UNIQUE\<close>, \<open>name TEXT\<close>,
  \<open>conversation_history TEXT\<close>. The three last columns may hold \<open>NULL\<close>, which is
  \<open>None\<close>. The rows are kept in the order of their insertion. The database also holds
  the counter of \<open>AUTOINCREMENT\<close>, the largest \<open>id\<close> ever given out.
\<close>

record users_row =
  u_id :: nat
  u_email :: pystr
  u_api_token :: "pystr option"
  u_name :: "pystr option"
  u_conversation_history :: "pystr option"

record database =
  users :: "users_row list"
  users_seq :: nat

datatype sql_error = IntegrityError

text \<open>
  \<^verbatim>\<open>INSERT INTO users (email, api_token, name, conversation_history) VALUES (?, ?, ?, ?)\<close>
  followed by \<open>commit\<close>. The statement raises \<open>IntegrityError\<close> and changes nothing when
  a row has the same \<open>email\<close> or the same (non-\<open>NULL\<close>) \<open>api_token\<close>. Otherwise the row
  is added with an \<open>id\<close> one larger than every \<open>id\<close> of the table and than the counter.
\<close>

definition next_id :: "database \<Rightarrow> nat" where
  "next_id d = Suc (max (users_seq d) (fold max (map u_id (users d)) 0))"

definition insert_user ::
  "pystr \<Rightarrow> pystr \<Rightarrow> pystr \<Rightarrow> pystr \<Rightarrow> database \<Rightarrow> sql_error + database" where
  "insert_user email api_token name history d =
     (if email \<in> set (map u_email (users d)) \<or> Some api_token \<in> set (map u_api_token (users d))
      then Inl IntegrityError
      else
        Inr (d\<lparr>users := users d @
                 [\<lparr>u_id = next_id d, u_email = email, u_api_token = Some api_token,
                   u_name = Some name, u_conversation_history = Some history\<rparr>],
               users_seq := next_id d\<rparr>))"

text \<open>
  \<^verbatim>\<open>SELECT conversation_history FROM users WHERE email = ?\<close> with \<open>fetchone\<close>: the
  first row of that email, if any. The parameter is \<open>user_data.get('email')\<close>, which may
  be \<open>None\<close>; \<open>email = NULL\<close> holds of no row. The result is \<open>None\<close> for no row and
  \<open>Some h\<close> for the one-column row \<open>(h,)\<close>.
\<close>

definition select_conversation_history :: "pystr option \<Rightarrow> database \<Rightarrow> pystr option option" where
  "select_conversation_history email d =
     (case email of
        None \<Rightarrow> None
      | Some e \<Rightarrow> map_option u_conversation_history (find (\<lambda>r. u_email r = e) (users d)))"

text \<open>
  \<^verbatim>\<open>UPDATE users SET conversation_history = ? WHERE email = ?\<close> followed by \<open>commit\<close>.
\<close>

definition update_conversation_history :: "pystr \<Rightarrow> pystr option \<Rightarrow> database \<Rightarrow> database" where
  "update_conversation_history new_history email d =
     (case email of
        None \<Rightarrow> d
      | Some e \<Rightarrow>
          d\<lparr>users := map (\<lambda>r. if u_email r = e
                                then r\<lparr>u_conversation_history := Some new_history\<rparr> else r)
                          (users d)\<rparr>)"

text \<open>Reading a row back from the store by its key.\<close>

definition select_user :: "pystr \<Rightarrow> database \<Rightarrow> users_row option" where
  "select_user e d = find (\<lambda>r. u_email r = e) (users d)"

section \<open>The conversation context\<close>

text \<open>
  \<open>context.user_data\<close> is a dictionary with the keys \<open>'step'\<close>, \<open>'name'\<close> and \<open>'email'\<close>;
  a key that is absent is \<open>None\<close>. The program only ever stores \<open>'name'\<close>, \<open>'email'\<close> and
  \<open>'chat'\<close> under \<open>'step'\<close>.
\<close>

datatype step = Name | Email | Chat

record user_data =
  ud_step :: "step option"
  ud_name :: "pystr option"
  ud_email :: "pystr option"

definition fresh_user_data :: user_data where
  "fresh_user_data = \<lparr>ud_step = None, ud_name = None, ud_email = None\<rparr>"

section \<open>The replies\<close>

text \<open>The string literals of the source, which are Ukrainian, as code points.\<close>

definition NAME_PROMPT :: pystr where
  \<comment> \<open>line 86: hello, please enter your name\<close>
  "NAME_PROMPT = [1055, 1088, 1080, 1074, 1110, 1090, 33, 32, 1041, 1091, 1076, 1100, 32,
     1083, 1072, 1089, 1082, 1072, 44, 32, 1074, 1074, 1077, 1076, 1110, 1090, 1100, 32,
     1074, 1072, 1096, 1077, 32, 1110, 1084, 39, 1103, 46]"

definition THANKS_BEFORE :: pystr where
  \<comment> \<open>line 102, before the name: thank you,\<close>
  "THANKS_BEFORE = [1044, 1103, 1082, 1091, 1102, 44, 32]"

definition THANKS_AFTER :: pystr where
  \<comment> \<open>line 102, after the name: now, please enter your email\<close>
  "THANKS_AFTER = [33, 32, 1058, 1077, 1087, 1077, 1088, 44, 32, 1073, 1091, 1076, 1100, 32,
     1083, 1072, 1089, 1082, 1072, 44, 32, 1074, 1074, 1077, 1076, 1110, 1090, 1100, 32,
     1074, 1072, 1096, 1091, 32, 1077, 1083, 1077, 1082, 1090, 1088, 1086, 1085, 1085, 1091,
     32, 1087, 1086, 1096, 1090, 1091, 46]"

definition UNKNOWN_NAME :: pystr where
  \<comment> \<open>line 108, the default of the name: unknown\<close>
  "UNKNOWN_NAME = [1053, 1077, 1074, 1110, 1076, 1086, 1084, 1080, 1081]"

definition TOKEN_BEFORE :: pystr where
  \<comment> \<open>line 116, before the token: your API token:\<close>
  "TOKEN_BEFORE = [1042, 1072, 1096, 32, 65, 80, 73, 32, 1090, 1086, 1082, 1077, 1085, 58, 32]"

definition ALREADY_REGISTERED :: pystr where
  \<comment> \<open>line 120: this email is already registered, use another\<close>
  "ALREADY_REGISTERED = [1062, 1103, 32, 1087, 1086, 1096, 1090, 1072, 32, 1074, 1078, 1077, 32,
     1079, 1072, 1088, 1077, 1108, 1089, 1090, 1088, 1086, 1074, 1072, 1085, 1072, 46, 32,
     1042, 1080, 1082, 1086, 1088, 1080, 1089, 1090, 1072, 1081, 1090, 1077, 32, 1110, 1085,
     1096, 1091, 46]"

definition INVALID_FORMAT :: pystr where
  \<comment> \<open>line 122: wrong format of the email, please try again\<close>
  "INVALID_FORMAT = [1053, 1077, 1074, 1110, 1088, 1085, 1080, 1081, 32, 1092, 1086, 1088, 1084,
     1072, 1090, 32, 1087, 1086, 1096, 1090, 1080, 46, 32, 1041, 1091, 1076, 1100, 32, 1083,
     1072, 1089, 1082, 1072, 44, 32, 1089, 1087, 1088, 1086, 1073, 1091, 1081, 1090, 1077, 32,
     1097, 1077, 32, 1088, 1072, 1079, 46]"

definition MESSAGE_SAVED :: pystr where
  \<comment> \<open>line 136: message saved\<close>
  "MESSAGE_SAVED = [1055, 1086, 1074, 1110, 1076, 1086, 1084, 1083, 1077, 1085, 1085, 1103, 32,
     1079, 1073, 1077, 1088, 1077, 1078, 1077, 1085, 1086, 46]"

section \<open>The handlers\<close>

text \<open>
  \<open>generate_api_token\<close> returns \<open>str(uuid.uuid4())\<close>, a random draw. The string drawn at
  a call is an argument of the model.
\<close>

definition generate_api_token :: "pystr \<Rightarrow> pystr" where
  "generate_api_token uuid4 = uuid4"

text \<open>
  \<open>start\<close>, the handler of the command \<^verbatim>\<open>/start\<close>: the reply and the new context. The
  text of the update is not read.
\<close>

definition start :: "pystr \<Rightarrow> user_data \<times> database \<Rightarrow> pystr \<times> user_data \<times> database" where
  "start text = (\<lambda>(ud, d). (NAME_PROMPT, ud\<lparr>ud_step := Some Name\<rparr>, d))"

text \<open>
  The history after one more message: \<^verbatim>\<open>f'{history}, "{message}"' if history else f'"{message}"'\<close>.
  \<open>None\<close> and the empty string are both false in Python.
\<close>

definition quoted :: "pystr \<Rightarrow> pystr" where
  "quoted message = [34] @ message @ [34]"

definition new_history :: "pystr option \<Rightarrow> pystr \<Rightarrow> pystr" where
  "new_history history message =
     (case history of
        None \<Rightarrow> quoted message
      | Some h \<Rightarrow> if h = [] then quoted message else h @ [44, 32] @ quoted message)"

text \<open>\<^verbatim>\<open>context.user_data.get('name', ...)\<close> with the default of line 108.\<close>

definition staged_name :: "user_data \<Rightarrow> pystr" where
  "staged_name ud = (case ud_name ud of None \<Rightarrow> UNKNOWN_NAME | Some n \<Rightarrow> n)"

text \<open>
  \<open>handle_message\<close>, the handler of every text message that is not a command: the reply
  it sends, the context and the database it leaves. \<open>uuid4\<close> is the draw of this call,
  used in the one branch that generates a token. The step defaults to \<open>'name'\<close>.
\<close>

definition handle_message ::
  "(codepoint \<Rightarrow> bool) \<Rightarrow> pystr \<Rightarrow> pystr \<Rightarrow> user_data \<times> database \<Rightarrow> pystr \<times> user_data \<times> database" where
  "handle_message U uuid4 text = (\<lambda>(ud, d).
     (case (case ud_step ud of None \<Rightarrow> Name | Some s \<Rightarrow> s) of
        Name \<Rightarrow>
          (THANKS_BEFORE @ text @ THANKS_AFTER, ud\<lparr>ud_name := Some text, ud_step := Some Email\<rparr>, d)
      | Email \<Rightarrow>
          if is_valid_email U text then
            let api_token = generate_api_token uuid4;
                name = staged_name ud
            in (case insert_user text api_token name [] d of
                  Inr d' \<Rightarrow>
                    (TOKEN_BEFORE @ api_token, ud\<lparr>ud_step := Some Chat, ud_email := Some text\<rparr>, d')
                | Inl IntegrityError \<Rightarrow> (ALREADY_REGISTERED, ud, d))
          else (INVALID_FORMAT, ud, d)
      | Chat \<Rightarrow>
          (case select_conversation_history (ud_email ud) d of
             Some history \<Rightarrow>
               (MESSAGE_SAVED, ud,
                update_conversation_history (new_history history text) (ud_email ud) d)
           | None \<Rightarrow> (MESSAGE_SAVED, ud, d))))"

text \<open>
  The messages of one conversation are handled one after the other; each comes with the
  draw of its call. The result is the context and the database after the last one.
\<close>

fun handle_messages ::
  "(codepoint \<Rightarrow> bool) \<Rightarrow> (pystr \<times> pystr) list \<Rightarrow> user_data \<times> database \<Rightarrow> user_data \<times> database" where
  "handle_messages U [] st = st"
| "handle_messages U ((uuid4, text) # ms) st =
     handle_messages U ms (snd (handle_message U uuid4 text st))"

section \<open>The grammar of the specification\<close>

text \<open>
  The grammar of an email as the specification words it, to be compared with
  \<open>is_valid_email\<close>: one or more characters of word characters, dot and hyphen, an \<open>@\<close>
  (code point 64), one or more characters of the same set, a dot (code point 46), one or
  more word characters, and nothing else.
\<close>

definition email_grammar :: "(codepoint \<Rightarrow> bool) \<Rightarrow> pystr \<Rightarrow> bool" where
  "email_grammar U e =
     (\<exists>l d t. e = l @ [64] @ d @ [46] @ t
        \<and> l \<noteq> [] \<and> list_all (word_dot_hyphen U) l
        \<and> d \<noteq> [] \<and> list_all (word_dot_hyphen U) d
        \<and> t \<noteq> [] \<and> list_all (word_char U) t)"


section \<open>Concrete conversations\<close>

text \<open>
  A store with one registered user, Ann, and the contexts of three conversations: Bob's
  and Carol's, who have given their names, and Ann's and Bob's in the step \<open>chat\<close>.
\<close>

definition ann_email :: pystr where
  "ann_email = ascii ''ann@example.org''"

definition ann_token :: pystr where
  "ann_token = ascii ''123e4567-e89b-42d3-a456-426614174000''"

definition bob_email :: pystr where
  "bob_email = ascii ''bob@example.org''"

definition bob_token :: pystr where
  "bob_token = ascii ''9f1c2d3e-4b5a-4c6d-8e7f-0a1b2c3d4e5f''"

definition carol_email :: pystr where
  "carol_email = ascii ''carol@example.org''"

definition empty_db :: database where
  "empty_db = \<lparr>users = [], users_seq = 0\<rparr>"

definition db_with_ann :: database where
  "db_with_ann =
     \<lparr>users = [\<lparr>u_id = 1, u_email = ann_email, u_api_token = Some ann_token,
                u_name = Some (ascii ''Ann''), u_conversation_history = Some []\<rparr>],
      users_seq = 1\<rparr>"

definition bob_at_email :: user_data where
  "bob_at_email = \<lparr>ud_step = Some Email, ud_name = Some (ascii ''Bob''), ud_email = None\<rparr>"

definition carol_at_email :: user_data where
  "carol_at_email = \<lparr>ud_step = Some Email, ud_name = Some (ascii ''Carol''), ud_email = None\<rparr>"

definition ann_at_chat :: user_data where
  "ann_at_chat = \<lparr>ud_step = Some Chat, ud_name = Some (ascii ''Ann''), ud_email = Some ann_email\<rparr>"

definition bob_at_chat :: user_data where
  "bob_at_chat = \<lparr>ud_step = Some Chat, ud_name = Some (ascii ''Bob''), ud_email = Some bob_email\<rparr>"

section \<open>What the pattern matches\<close>

text \<open>
  The search of \<open>re_run\<close> through a literal and through a repetition, as a splitting of
  the subject string.
\<close>

lemma re_run_Lit:
  "re_run (Lit c # r) b s \<longleftrightarrow> (\<exists>ys. s = c # ys \<and> re_run r False ys)"
  by (cases s) auto

lemma re_run_OneOrMore:
  "re_run (OneOrMore p # r) b s \<longleftrightarrow>
     (\<exists>xs ys. s = xs @ ys \<and> xs \<noteq> [] \<and> list_all p xs \<and> re_run r False ys)"
proof (induction s arbitrary: b)
  case Nil
  then show ?case by simp
next
  case (Cons x s)
  show ?case
  proof
    assume "re_run (OneOrMore p # r) b (x # s)"
    then have px: "p x" and alt: "re_run (OneOrMore p # r) False s \<or> re_run r False s"
      by simp_all
    from alt show "\<exists>xs ys. x # s = xs @ ys \<and> xs \<noteq> [] \<and> list_all p xs \<and> re_run r False ys"
    proof
      assume "re_run (OneOrMore p # r) False s"
      then obtain xs ys where "s = xs @ ys" "list_all p xs" "re_run r False ys"
        using Cons.IH by blast
      with px have "x # s = (x # xs) @ ys \<and> x # xs \<noteq> [] \<and> list_all p (x # xs) \<and> re_run r False ys"
        by simp
      then show ?thesis by blast
    next
      assume "re_run r False s"
      with px have "x # s = [x] @ s \<and> [x] \<noteq> [] \<and> list_all p [x] \<and> re_run r False s"
        by simp
      then show ?thesis by blast
    qed
  next
    assume "\<exists>xs ys. x # s = xs @ ys \<and> xs \<noteq> [] \<and> list_all p xs \<and> re_run r False ys"
    then obtain xs ys where eq: "x # s = xs @ ys" and ne: "xs \<noteq> []"
      and all: "list_all p xs" and rest: "re_run r False ys"
      by blast
    from ne obtain x' xs' where xs: "xs = x' # xs'" by (cases xs) auto
    with eq have x': "x' = x" and s: "s = xs' @ ys" by simp_all
    from all xs x' have px: "p x" and all': "list_all p xs'" by simp_all
    show "re_run (OneOrMore p # r) b (x # s)"
    proof (cases "xs' = []")
      case True
      with s rest px show ?thesis by simp
    next
      case False
      with s all' rest have "re_run (OneOrMore p # r) False s"
        using Cons.IH by blast
      with px show ?thesis by simp
    qed
  qed
qed

text \<open>
  The strings that \<open>is_valid_email\<close> accepts: the three parts of the pattern, and then
  either nothing or one final newline.
\<close>

lemma is_valid_email_split:
  "is_valid_email U e \<longleftrightarrow>
     (\<exists>l d t z. e = l @ [64] @ d @ [46] @ t @ z
        \<and> l \<noteq> [] \<and> list_all (word_dot_hyphen U) l
        \<and> d \<noteq> [] \<and> list_all (word_dot_hyphen U) d
        \<and> t \<noteq> [] \<and> list_all (word_char U) t
        \<and> (z = [] \<or> z = [10]))"
  (is "?lhs \<longleftrightarrow> ?rhs")
proof
  assume ?lhs
  then have "re_run [OneOrMore (word_dot_hyphen U), Lit 64, OneOrMore (word_dot_hyphen U),
      Lit 46, OneOrMore (word_char U), AtEnd] True e"
    by (simp add: is_valid_email_def re_match_def EMAIL_PATTERN_def)
  then obtain l s1 where e: "e = l @ s1" and l: "l \<noteq> []" "list_all (word_dot_hyphen U) l"
    and r1: "re_run [Lit 64, OneOrMore (word_dot_hyphen U), Lit 46, OneOrMore (word_char U), AtEnd] False s1"
    unfolding re_run_OneOrMore by blast
  from r1 obtain s2 where s1: "s1 = 64 # s2"
    and r2: "re_run [OneOrMore (word_dot_hyphen U), Lit 46, OneOrMore (word_char U), AtEnd] False s2"
    unfolding re_run_Lit by blast
  from r2 obtain d s3 where s2: "s2 = d @ s3" and d: "d \<noteq> []" "list_all (word_dot_hyphen U) d"
    and r3: "re_run [Lit 46, OneOrMore (word_char U), AtEnd] False s3"
    unfolding re_run_OneOrMore by blast
  from r3 obtain s4 where s3: "s3 = 46 # s4"
    and r4: "re_run [OneOrMore (word_char U), AtEnd] False s4"
    unfolding re_run_Lit by blast
  from r4 obtain t z where s4: "s4 = t @ z" and t: "t \<noteq> []" "list_all (word_char U) t"
    and r5: "re_run [AtEnd] False z"
    unfolding re_run_OneOrMore by blast
  from r5 have z: "z = [] \<or> z = [10]" by simp
  from e s1 s2 s3 s4 have "e = l @ [64] @ d @ [46] @ t @ z" by simp
  with l d t z show ?rhs by blast
next
  assume ?rhs
  then obtain l d t z where e: "e = l @ [64] @ d @ [46] @ t @ z"
    and l: "l \<noteq> []" "list_all (word_dot_hyphen U) l"
    and d: "d \<noteq> []" "list_all (word_dot_hyphen U) d"
    and t: "t \<noteq> []" "list_all (word_char U) t"
    and z: "z = [] \<or> z = [10]"
    by blast
  from z have r5: "re_run [AtEnd] False z" by simp
  with t have r4: "re_run [OneOrMore (word_char U), AtEnd] False (t @ z)"
    unfolding re_run_OneOrMore by blast
  then have r3: "re_run [Lit 46, OneOrMore (word_char U), AtEnd] False (46 # t @ z)"
    by simp
  with d have r2: "re_run [OneOrMore (word_dot_hyphen U), Lit 46, OneOrMore (word_char U), AtEnd]
      False (d @ 46 # t @ z)"
    unfolding re_run_OneOrMore [of _ "[Lit 46, OneOrMore (word_char U), AtEnd]"] by blast
  then have r1: "re_run [Lit 64, OneOrMore (word_dot_hyphen U), Lit 46, OneOrMore (word_char U), AtEnd]
      False (64 # d @ 46 # t @ z)"
    by simp
  with l have "re_run [OneOrMore (word_dot_hyphen U), Lit 64, OneOrMore (word_dot_hyphen U),
      Lit 46, OneOrMore (word_char U), AtEnd] True (l @ 64 # d @ 46 # t @ z)"
    unfolding re_run_OneOrMore [of _ "[Lit 64, OneOrMore (word_dot_hyphen U), Lit 46, OneOrMore (word_char U), AtEnd]"]
    by blast
  with e show ?lhs
    by (simp add: is_valid_email_def re_match_def EMAIL_PATTERN_def)
qed

lemma word_char_newline: "\<not> word_char U 10"
  by (simp add: word_char_def isalnum_def ascii_alnum_def)

lemma email_grammar_no_final_newline: "\<not> email_grammar U (e @ [10])"
proof
  assume "email_grammar U (e @ [10])"
  then obtain l d t where eq: "e @ [10] = l @ [64] @ d @ [46] @ t"
    and t: "t \<noteq> []" "list_all (word_char U) t"
    unfolding email_grammar_def by blast
  from t(1) have "last (l @ [64] @ d @ [46] @ t) = last t" by simp
  with eq have "last t = 10" by (metis last_snoc)
  moreover from t have "word_char U (last t)" by (simp add: list_all_iff)
  ultimately show False using word_char_newline by simp
qed

lemma is_valid_email_iff:
  "is_valid_email U e \<longleftrightarrow> email_grammar U e \<or> (\<exists>e0. e = e0 @ [10] \<and> email_grammar U e0)"
  (is "?lhs \<longleftrightarrow> ?rhs")
proof
  assume ?lhs
  then obtain l d t z where e: "e = l @ [64] @ d @ [46] @ t @ z"
    and parts: "l \<noteq> []" "list_all (word_dot_hyphen U) l" "d \<noteq> []" "list_all (word_dot_hyphen U) d"
      "t \<noteq> []" "list_all (word_char U) t"
    and z: "z = [] \<or> z = [10]"
    unfolding is_valid_email_split by blast
  from parts have g: "email_grammar U (l @ [64] @ d @ [46] @ t)"
    unfolding email_grammar_def by blast
  from z show ?rhs
  proof
    assume "z = []"
    with e g show ?thesis by simp
  next
    assume "z = [10]"
    with e have "e = (l @ [64] @ d @ [46] @ t) @ [10]" by simp
    with g show ?thesis by blast
  qed
next
  assume ?rhs
  then show ?lhs
  proof
    assume "email_grammar U e"
    then obtain l d t where "e = l @ [64] @ d @ [46] @ t @ []"
      "l \<noteq> []" "list_all (word_dot_hyphen U) l" "d \<noteq> []" "list_all (word_dot_hyphen U) d"
      "t \<noteq> []" "list_all (word_char U) t"
      unfolding email_grammar_def by auto
    then show ?thesis unfolding is_valid_email_split by blast
  next
    assume "\<exists>e0. e = e0 @ [10] \<and> email_grammar U e0"
    then obtain e0 where e: "e = e0 @ [10]" and g: "email_grammar U e0" by blast
    from g obtain l d t where "e0 = l @ [64] @ d @ [46] @ t"
      and parts: "l \<noteq> []" "list_all (word_dot_hyphen U) l" "d \<noteq> []" "list_all (word_dot_hyphen U) d"
      "t \<noteq> []" "list_all (word_char U) t"
      unfolding email_grammar_def by auto
    with e have "e = l @ [64] @ d @ [46] @ t @ [10]" by simp
    with parts show ?thesis unfolding is_valid_email_split by blast
  qed
qed

text \<open>
  On a string of ASCII characters the verdict does not depend on the table of the
  Unicode database.
\<close>

lemma word_char_ascii: "c < 128 \<Longrightarrow> word_char U c = word_char U' c"
  by (simp add: word_char_def isalnum_def)

lemma list_all_ascii_cong:
  assumes "\<And>c. c < 128 \<Longrightarrow> P c = Q c"
  shows "list_all (\<lambda>c. c < 128) xs \<Longrightarrow> list_all P xs = list_all Q xs"
  using assms by (induction xs) auto

lemma is_valid_email_ascii:
  assumes "list_all (\<lambda>c. c < 128) e"
  shows "is_valid_email U e = is_valid_email U' e"
proof -
  have one: "is_valid_email V' e" if v: "is_valid_email V e" for V V'
  proof -
    from v obtain l d t z where e: "e = l @ [64] @ d @ [46] @ t @ z"
      and l: "l \<noteq> []" "list_all (word_dot_hyphen V) l"
      and d: "d \<noteq> []" "list_all (word_dot_hyphen V) d"
      and t: "t \<noteq> []" "list_all (word_char V) t"
      and z: "z = [] \<or> z = [10]"
      unfolding is_valid_email_split by blast
    from assms e have a: "list_all (\<lambda>c. c < 128) l" "list_all (\<lambda>c. c < 128) d"
      "list_all (\<lambda>c. c < 128) t"
      by simp_all
    have w: "word_dot_hyphen V c = word_dot_hyphen V' c" if "c < 128" for c
      using that word_char_ascii [of c V V'] by (simp add: word_dot_hyphen_def)
    have "list_all (word_dot_hyphen V') l"
      using list_all_ascii_cong [OF w a(1)] l(2) by simp
    moreover have "list_all (word_dot_hyphen V') d"
      using list_all_ascii_cong [OF w a(2)] d(2) by simp
    moreover have wc: "word_char V c = word_char V' c" if "c < 128" for c
      using that by (rule word_char_ascii)
    have "list_all (word_char V') t"
      using list_all_ascii_cong [OF wc a(3)] t(2) by simp
    ultimately show ?thesis
      unfolding is_valid_email_split using e l(1) d(1) t(1) z by blast
  qed
  show ?thesis using one [of U U'] one [of U' U] by blast
qed

section \<open>The handlers, branch by branch\<close>

lemmas validator_defs =
  is_valid_email_def re_match_def EMAIL_PATTERN_def word_dot_hyphen_def word_char_def
  isalnum_def ascii_alnum_def ascii_only_def

lemmas example_defs =
  ascii_def ann_email_def ann_token_def bob_email_def bob_token_def db_with_ann_def
  bob_at_email_def ann_at_chat_def bob_at_chat_def

lemma bob_email_valid: "is_valid_email ascii_only bob_email"
  by (simp add: validator_defs example_defs)

lemma ann_email_valid: "is_valid_email ascii_only ann_email"
  by (simp add: validator_defs example_defs)

lemma handle_message_invalid:
  "ud_step ud = Some Email \<Longrightarrow> \<not> is_valid_email U e \<Longrightarrow>
   handle_message U uuid4 e (ud, d) = (INVALID_FORMAT, ud, d)"
  by (simp add: handle_message_def)

lemma handle_message_rejected:
  "ud_step ud = Some Email \<Longrightarrow> is_valid_email U e \<Longrightarrow>
   e \<in> set (map u_email (users d)) \<or> Some (generate_api_token uuid4) \<in> set (map u_api_token (users d)) \<Longrightarrow>
   handle_message U uuid4 e (ud, d) = (ALREADY_REGISTERED, ud, d)"
  by (simp add: handle_message_def insert_user_def Let_def)

lemma handle_message_registers:
  "ud_step ud = Some Email \<Longrightarrow> is_valid_email U e \<Longrightarrow>
   e \<notin> set (map u_email (users d)) \<Longrightarrow>
   Some (generate_api_token uuid4) \<notin> set (map u_api_token (users d)) \<Longrightarrow>
   handle_message U uuid4 e (ud, d) =
     (TOKEN_BEFORE @ generate_api_token uuid4,
      ud\<lparr>ud_step := Some Chat, ud_email := Some e\<rparr>,
      d\<lparr>users := users d @
           [\<lparr>u_id = next_id d, u_email = e, u_api_token = Some (generate_api_token uuid4),
             u_name = Some (staged_name ud), u_conversation_history = Some []\<rparr>],
         users_seq := next_id d\<rparr>)"
  by (simp add: handle_message_def insert_user_def Let_def)

lemma fold_max_ge: "(a::nat) \<le> fold max xs a"
  by (induction xs arbitrary: a) (auto intro: order_trans [OF max.cobounded2])

lemma fold_max_bound: "x \<in> set xs \<Longrightarrow> (x::nat) \<le> fold max xs a"
proof (induction xs arbitrary: a)
  case Nil
  then show ?case by simp
next
  case (Cons y ys)
  show ?case
  proof (cases "x = y")
    case True
    have "y \<le> max y a" by simp
    also have "\<dots> \<le> fold max ys (max y a)" by (rule fold_max_ge)
    finally show ?thesis using True by simp
  next
    case False
    with Cons.prems have "x \<in> set ys" by simp
    then show ?thesis using Cons.IH by simp
  qed
qed

lemma next_id_new: "next_id d \<notin> set (map u_id (users d))"
proof
  assume "next_id d \<in> set (map u_id (users d))"
  then have "next_id d \<le> fold max (map u_id (users d)) 0" by (rule fold_max_bound)
  then show False by (simp add: next_id_def)
qed

lemma find_append_new:
  "\<forall>x \<in> set xs. \<not> P x \<Longrightarrow> P y \<Longrightarrow> find P (xs @ [y]) = Some y"
  by (induction xs) auto


lemma replies_distinct: "ALREADY_REGISTERED \<noteq> INVALID_FORMAT"
  by (simp add: ALREADY_REGISTERED_def INVALID_FORMAT_def)

lemma select_user_inserted:
  assumes "e \<notin> set (map u_email (users d))" and "u_email r = e"
  shows "select_user e (d\<lparr>users := users d @ [r], users_seq := i\<rparr>) = Some r"
proof -
  from assms(1) have "\<forall>x \<in> set (users d). \<not> u_email x = e" by auto
  then have "find (\<lambda>x. u_email x = e) (users d @ [r]) = Some r"
    using assms(2) by (rule find_append_new)
  then show ?thesis by (simp add: select_user_def)
qed

lemma select_None:
  "email \<notin> set (map (\<lambda>r. Some (u_email r)) (users d)) \<Longrightarrow>
   select_conversation_history email d = None"
proof (cases email)
  case None
  then show ?thesis by (simp add: select_conversation_history_def)
next
  case (Some e)
  assume "email \<notin> set (map (\<lambda>r. Some (u_email r)) (users d))"
  with Some have "\<forall>x \<in> set (users d). \<not> u_email x = e" by auto
  then have "find (\<lambda>r. u_email r = e) (users d) = None"
    by (simp add: find_None_iff)
  with Some show ?thesis by (simp add: select_conversation_history_def)
qed




lemma handle_message_chat_missing:
  "ud_step ud = Some Chat \<Longrightarrow> select_conversation_history (ud_email ud) d = None \<Longrightarrow>
   handle_message U uuid4 m (ud, d) = (MESSAGE_SAVED, ud, d)"
  by (simp add: handle_message_def)

lemma handle_message_chat_context:
  "ud_step ud = Some Chat \<Longrightarrow> fst (snd (handle_message U uuid4 m (ud, d))) = ud"
  by (simp add: handle_message_def split: option.splits)



lemma handle_messages_chat:
  "ud_step ud = Some Chat \<Longrightarrow> fst (handle_messages U ms (ud, d)) = ud"
proof (induction ms arbitrary: d)
  case Nil
  then show ?case by simp
next
  case (Cons m ms)
  obtain uuid4 msg where m: "m = (uuid4, msg)" by (cases m)
  obtain reply ud' d' where h: "handle_message U uuid4 msg (ud, d) = (reply, ud', d')"
    by (cases "handle_message U uuid4 msg (ud, d)")
  with handle_message_chat_context [OF Cons.prems, of U uuid4 msg d] have "ud' = ud" by simp
  with m h Cons.IH [OF Cons.prems, of d'] show ?case by simp
qed

text \<open>
  In the step \<open>email\<close>, the step becomes \<open>chat\<close> only when the email is valid and
  neither the email nor the token is in the store.
\<close>

lemma handle_message_email_chat:
  assumes "ud_step ud = Some Email"
    and "ud_step (fst (snd (handle_message U uuid4 e (ud, d)))) = Some Chat"
  shows "is_valid_email U e \<and> e \<notin> set (map u_email (users d))
       \<and> Some (generate_api_token uuid4) \<notin> set (map u_api_token (users d))"
proof (rule ccontr)
  assume "\<not> ?thesis"
  then consider "\<not> is_valid_email U e"
    | "is_valid_email U e"
      "e \<in> set (map u_email (users d)) \<or> Some (generate_api_token uuid4) \<in> set (map u_api_token (users d))"
    by blast
  then have "fst (snd (handle_message U uuid4 e (ud, d))) = ud"
  proof cases
    case 1
    with assms(1) show ?thesis by (simp add: handle_message_invalid)
  next
    case 2
    with assms(1) show ?thesis by (simp add: handle_message_rejected)
  qed
  with assms show False by simp
qed

lemma carol_email_valid: "is_valid_email ascii_only carol_email"
  by (simp add: validator_defs carol_email_def ascii_def)

lemma bob_not_in_db: "bob_email \<notin> set (map u_email (users db_with_ann))"
  by (simp add: example_defs)

lemma bob_token_not_in_db:
  "Some (generate_api_token bob_token) \<notin> set (map u_api_token (users db_with_ann))"
  by (simp add: example_defs generate_api_token_def)

text \<open>
  The command \<^verbatim>\<open>/start\<close> is not a text message: it has its own handler, which sets the
  step to \<open>'name'\<close> whatever the step was and keeps the staged name and email.
\<close>

lemma start_resets_step:
  "start m0 (ud, d) = (NAME_PROMPT, ud', d') \<Longrightarrow>
   ud_step ud' = Some Name \<and> ud_name ud' = ud_name ud \<and> ud_email ud' = ud_email ud \<and> d' = d"
  by (auto simp: start_def)

text \<open>
  A text message that reaches a context without a step (the first event of a conversation
  is a text and not the command) is taken as the name.
\<close>

lemma handle_message_fresh:
  "handle_message U uuid4 m (fresh_user_data, d) =
     (THANKS_BEFORE @ m @ THANKS_AFTER,
      \<lparr>ud_step = Some Email, ud_name = Some m, ud_email = None\<rparr>, d)"
  by (simp add: handle_message_def fresh_user_data_def)

lemma start_step: "ud_step (fst (snd (start m0 (ud, d)))) = Some Name"
  by (simp add: start_def)

lemma not_valid_grammar:
  "\<not> email_grammar U e \<and> \<not> (\<exists>e0. e = e0 @ [10] \<and> email_grammar U e0) \<Longrightarrow> \<not> is_valid_email U e"
  by (simp add: is_valid_email_iff)

lemma handle_message_registers_step:
  assumes "ud_step ud = Some Email" and "is_valid_email U e"
    and "e \<notin> set (map u_email (users d))"
    and "Some (generate_api_token uuid4) \<notin> set (map u_api_token (users d))"
  shows "ud_step (fst (snd (handle_message U uuid4 e (ud, d)))) = Some Chat"
  by (simp add: handle_message_registers [OF assms])

section \<open>The conversation, claim by claim\<close>

text \<open>
  Claim C1. In the step \<open>email\<close>, a syntactically valid email that is not in the store
  creates exactly one new record with that email, the token generated at this call and an
  empty history; the step becomes \<open>chat\<close>, the email is staged in the context and the
  reply contains the token.

  As stated, for every valid email that is not in the store, this does not hold: the
  table also requires \<open>api_token\<close> to be unique, and when the token that is drawn is the
  token of a stored record the insertion is refused. With a token that no stored record
  has, the registration is the following: the reply is the prefix of line 116 followed by
  the token, the context holds the step \<open>chat\<close> and the email, and the store is the old
  one followed by one row, which carries a new \<open>id\<close>.
\<close>

theorem registration_creates_one_record:
  assumes "ud_step ud = Some Email" and "is_valid_email U e"
    and "e \<notin> set (map u_email (users d))"
    and "Some (generate_api_token uuid4) \<notin> set (map u_api_token (users d))"
  shows "handle_message U uuid4 e (ud, d) =
           (TOKEN_BEFORE @ generate_api_token uuid4,
            ud\<lparr>ud_step := Some Chat, ud_email := Some e\<rparr>,
            d\<lparr>users := users d @
                 [\<lparr>u_id = next_id d, u_email = e, u_api_token = Some (generate_api_token uuid4),
                   u_name = Some (staged_name ud), u_conversation_history = Some []\<rparr>],
               users_seq := next_id d\<rparr>)
       \<and> next_id d \<notin> set (map u_id (users d))"
  using handle_message_registers [OF assms] next_id_new by blast

theorem registration_creates_one_record_witness:
  "ud_step bob_at_email = Some Email \<and> is_valid_email ascii_only bob_email
   \<and> bob_email \<notin> set (map u_email (users db_with_ann))
   \<and> Some (generate_api_token bob_token) \<notin> set (map u_api_token (users db_with_ann))
   \<and> handle_message ascii_only bob_token bob_email (bob_at_email, db_with_ann) =
       (TOKEN_BEFORE @ bob_token,
        bob_at_email\<lparr>ud_step := Some Chat, ud_email := Some bob_email\<rparr>,
        db_with_ann\<lparr>users := users db_with_ann @
           [\<lparr>u_id = 2, u_email = bob_email, u_api_token = Some bob_token,
             u_name = Some (ascii ''Bob''), u_conversation_history = Some []\<rparr>],
         users_seq := 2\<rparr>)
   \<and> 2 \<notin> set (map u_id (users db_with_ann))"
proof -
  have s: "ud_step bob_at_email = Some Email" by (simp add: bob_at_email_def)
  have n: "next_id db_with_ann = 2" by (simp add: next_id_def db_with_ann_def)
  have g: "generate_api_token bob_token = bob_token" by (simp add: generate_api_token_def)
  have b: "staged_name bob_at_email = ascii ''Bob''" by (simp add: staged_name_def bob_at_email_def)
  from registration_creates_one_record [OF s bob_email_valid bob_not_in_db bob_token_not_in_db]
    s bob_email_valid bob_not_in_db bob_token_not_in_db
  show ?thesis unfolding n g b by blast
qed

text \<open>
  The run that refutes the claim as stated: Carol's email is valid and is not in the
  store, the draw is Ann's token; no record is created and the step stays \<open>email\<close>.
\<close>

theorem registration_token_collision_counterexample:
  "ud_step carol_at_email = Some Email \<and> is_valid_email ascii_only carol_email
   \<and> carol_email \<notin> set (map u_email (users db_with_ann))
   \<and> handle_message ascii_only ann_token carol_email (carol_at_email, db_with_ann)
       = (ALREADY_REGISTERED, carol_at_email, db_with_ann)"
proof -
  have s: "ud_step carol_at_email = Some Email" by (simp add: carol_at_email_def)
  have m: "carol_email \<notin> set (map u_email (users db_with_ann))"
    by (simp add: example_defs carol_email_def)
  have t: "Some (generate_api_token ann_token) \<in> set (map u_api_token (users db_with_ann))"
    by (simp add: db_with_ann_def generate_api_token_def)
  from s carol_email_valid t have
    "handle_message ascii_only ann_token carol_email (carol_at_email, db_with_ann)
       = (ALREADY_REGISTERED, carol_at_email, db_with_ann)"
    by (simp add: handle_message_rejected)
  with s carol_email_valid m show ?thesis by blast
qed

text \<open>
  Claim C2. The validator accepts a string if and only if it consists of one or more
  characters of word characters, dot and hyphen, an \<open>@\<close>, one or more characters of the
  same set, a dot, one or more word characters, and nothing else.

  \<open>is_valid_email_iff\<close> above is what holds of the code: the validator accepts the
  strings of the grammar and, because \<^verbatim>\<open>$\<close> also matches before a final newline, each of
  them followed by one newline. At the email \<^verbatim>\<open>a@b.c\<close> followed by a newline the validator
  accepts a string that is not in the grammar.
\<close>

theorem validator_accepts_trailing_newline:
  "is_valid_email ascii_only (ascii ''a@b.c'' @ [10])
   \<and> \<not> email_grammar ascii_only (ascii ''a@b.c'' @ [10])"
proof -
  have "is_valid_email ascii_only (ascii ''a@b.c'' @ [10])"
    by (simp add: validator_defs ascii_def)
  then show ?thesis using email_grammar_no_final_newline by blast
qed

text \<open>
  Claim C3. In the step \<open>email\<close>, a syntactically valid email that is already registered
  leaves the step at \<open>email\<close> and the whole store (so the existing record) as it was, and
  the reply is the duplicate-email reply, which differs from the invalid-format reply.
\<close>

theorem duplicate_email_keeps_step_and_store:
  assumes "ud_step ud = Some Email" and "is_valid_email U e"
    and "e \<in> set (map u_email (users d))"
  shows "handle_message U uuid4 e (ud, d) = (ALREADY_REGISTERED, ud, d)
       \<and> ALREADY_REGISTERED \<noteq> INVALID_FORMAT"
  using assms handle_message_rejected [of ud U e d uuid4] replies_distinct by blast

theorem duplicate_email_keeps_step_and_store_witness:
  "ud_step bob_at_email = Some Email \<and> is_valid_email ascii_only ann_email
   \<and> ann_email \<in> set (map u_email (users db_with_ann))
   \<and> handle_message ascii_only bob_token ann_email (bob_at_email, db_with_ann)
       = (ALREADY_REGISTERED, bob_at_email, db_with_ann)
   \<and> ALREADY_REGISTERED \<noteq> INVALID_FORMAT"
proof -
  have s: "ud_step bob_at_email = Some Email" by (simp add: bob_at_email_def)
  have m: "ann_email \<in> set (map u_email (users db_with_ann))" by (simp add: db_with_ann_def)
  from s ann_email_valid m
    duplicate_email_keeps_step_and_store [OF s ann_email_valid m, of bob_token]
  show ?thesis by blast
qed



text \<open>
  Claim C5. In the step \<open>chat\<close>, when no record has the staged email (or no email is
  staged), the append does nothing: the store and the context are the same, and the
  acknowledgment is the reply.
\<close>

theorem chat_without_record_is_noop:
  assumes "ud_step ud = Some Chat"
    and "ud_email ud \<notin> set (map (\<lambda>r. Some (u_email r)) (users d))"
  shows "handle_message U uuid4 m (ud, d) = (MESSAGE_SAVED, ud, d)"
  using assms(1) select_None [OF assms(2)] by (rule handle_message_chat_missing)

theorem chat_without_record_is_noop_witness:
  "ud_step bob_at_chat = Some Chat
   \<and> ud_email bob_at_chat \<notin> set (map (\<lambda>r. Some (u_email r)) (users db_with_ann))
   \<and> handle_message ascii_only bob_token (ascii ''hello'') (bob_at_chat, db_with_ann)
       = (MESSAGE_SAVED, bob_at_chat, db_with_ann)"
proof -
  have s: "ud_step bob_at_chat = Some Chat" by (simp add: bob_at_chat_def)
  have m: "ud_email bob_at_chat \<notin> set (map (\<lambda>r. Some (u_email r)) (users db_with_ann))"
    by (simp add: example_defs)
  from s m chat_without_record_is_noop [OF s m] show ?thesis by blast
qed

text \<open>
  Claim C6. Once the step is \<open>chat\<close>, no transition moves it back to \<open>name\<close> or \<open>email\<close>;
  and in the step \<open>email\<close>, an input that is not a valid unregistered email leaves
  the step at \<open>email\<close>.

  As stated this does not hold: the command \<^verbatim>\<open>/start\<close> sets the step to \<open>name\<close> from
  every step, \<open>chat\<close> included. What holds is that no sequence of text messages moves the
  step away from \<open>chat\<close>, that \<open>start\<close> always leaves the step \<open>name\<close>, and that in
  the step \<open>email\<close> the step is kept by an input that is already registered, or that is
  neither a string of the grammar nor such a string followed by one newline. A string of
  the grammar followed by a newline is left out of the statement: the validator accepts
  it (\<open>is_valid_email_iff\<close>).
\<close>

theorem chat_kept_by_messages_and_email_kept:
  "(ud_step ud = Some Chat \<longrightarrow> ud_step (fst (handle_messages U ms (ud, d))) = Some Chat)
   \<and> ud_step (fst (snd (start m0 (ud, d)))) = Some Name
   \<and> (ud_step ud = Some Email
        \<and> (e \<in> set (map u_email (users d))
           \<or> (\<not> email_grammar U e \<and> \<not> (\<exists>e0. e = e0 @ [10] \<and> email_grammar U e0)))
        \<longrightarrow> ud_step (fst (snd (handle_message U uuid4 e (ud, d)))) = Some Email)"
proof (intro conjI impI)
  assume "ud_step ud = Some Chat"
  then show "ud_step (fst (handle_messages U ms (ud, d))) = Some Chat"
    by (simp add: handle_messages_chat)
next
  show "ud_step (fst (snd (start m0 (ud, d)))) = Some Name" by (rule start_step)
next
  assume a: "ud_step ud = Some Email
        \<and> (e \<in> set (map u_email (users d))
           \<or> (\<not> email_grammar U e \<and> \<not> (\<exists>e0. e = e0 @ [10] \<and> email_grammar U e0)))"
  show "ud_step (fst (snd (handle_message U uuid4 e (ud, d)))) = Some Email"
  proof (cases "is_valid_email U e")
    case True
    with a have "e \<in> set (map u_email (users d))" using not_valid_grammar by blast
    with a True show ?thesis by (simp add: handle_message_rejected)
  next
    case False
    with a show ?thesis by (simp add: handle_message_invalid)
  qed
qed

theorem chat_kept_by_messages_and_email_kept_witness:
  "ud_step ann_at_chat = Some Chat
   \<and> ud_step (fst (handle_messages ascii_only
         [(bob_token, ascii ''hello''), (bob_token, bob_email)] (ann_at_chat, db_with_ann)))
       = Some Chat
   \<and> ud_step (fst (snd (start (ascii ''/start'') (ann_at_chat, db_with_ann)))) = Some Name
   \<and> ud_step bob_at_email = Some Email
   \<and> ann_email \<in> set (map u_email (users db_with_ann))
   \<and> ud_step (fst (snd (handle_message ascii_only bob_token ann_email (bob_at_email, db_with_ann))))
       = Some Email
   \<and> \<not> email_grammar ascii_only (ascii ''bob at example'')
   \<and> \<not> (\<exists>e0. ascii ''bob at example'' = e0 @ [10] \<and> email_grammar ascii_only e0)
   \<and> ud_step (fst (snd (handle_message ascii_only bob_token (ascii ''bob at example'')
         (bob_at_email, db_with_ann)))) = Some Email"
proof -
  have s: "ud_step ann_at_chat = Some Chat" by (simp add: ann_at_chat_def)
  have s': "ud_step bob_at_email = Some Email" by (simp add: bob_at_email_def)
  have m: "ann_email \<in> set (map u_email (users db_with_ann))" by (simp add: db_with_ann_def)
  have "\<not> is_valid_email ascii_only (ascii ''bob at example'')"
    by (simp add: validator_defs ascii_def)
  then have g: "\<not> email_grammar ascii_only (ascii ''bob at example'')"
    and n: "\<not> (\<exists>e0. ascii ''bob at example'' = e0 @ [10] \<and> email_grammar ascii_only e0)"
    by (simp_all add: is_valid_email_iff)
  from s s' m g n
    chat_kept_by_messages_and_email_kept [of ann_at_chat ascii_only
      "[(bob_token, ascii ''hello''), (bob_token, bob_email)]" db_with_ann "ascii ''/start''"]
    chat_kept_by_messages_and_email_kept [of bob_at_email ascii_only _ db_with_ann _ ann_email bob_token]
    chat_kept_by_messages_and_email_kept [of bob_at_email ascii_only _ db_with_ann _
      "ascii ''bob at example''" bob_token]
  show ?thesis by blast
qed

text \<open>
  The runs that refute the claim as stated: from Ann's context in the step \<open>chat\<close>, the
  command leaves the step \<open>name\<close>; and in the step \<open>email\<close>, Bob's email followed by a
  newline, which is not a string of the grammar, moves the step to \<open>chat\<close>.
\<close>

theorem chat_left_by_start_counterexample:
  "ud_step ann_at_chat = Some Chat
   \<and> ud_step (fst (snd (start (ascii ''/start'') (ann_at_chat, db_with_ann)))) = Some Name
   \<and> ud_step bob_at_email = Some Email
   \<and> \<not> email_grammar ascii_only (bob_email @ [10])
   \<and> bob_email @ [10] \<notin> set (map u_email (users db_with_ann))
   \<and> ud_step (fst (snd (handle_message ascii_only bob_token (bob_email @ [10])
         (bob_at_email, db_with_ann)))) = Some Chat"
proof -
  have s: "ud_step ann_at_chat = Some Chat" by (simp add: ann_at_chat_def)
  have s': "ud_step bob_at_email = Some Email" by (simp add: bob_at_email_def)
  have v: "is_valid_email ascii_only (bob_email @ [10])"
    by (simp add: validator_defs example_defs)
  have m: "bob_email @ [10] \<notin> set (map u_email (users db_with_ann))"
    by (simp add: example_defs)
  have c: "ud_step (fst (snd (handle_message ascii_only bob_token (bob_email @ [10])
         (bob_at_email, db_with_ann)))) = Some Chat"
    using s' v m bob_token_not_in_db by (rule handle_message_registers_step)
  from s s' m c start_step [of "ascii ''/start''" ann_at_chat db_with_ann]
    email_grammar_no_final_newline [of ascii_only bob_email]
  show ?thesis by blast
qed

text \<open>
  Claim C7. In the step \<open>email\<close>, a string that does not match the email grammar leaves
  the step at \<open>email\<close> and the store as it was, and the reply is the invalid-format
  reply.

  The handler does so for every string that \<open>is_valid_email\<close> rejects
  (\<open>handle_message_invalid\<close> above), but \<open>is_valid_email\<close> accepts a string of the grammar
  followed by a newline (\<open>is_valid_email_iff\<close>). At \<^verbatim>\<open>a@b.c\<close> followed by a newline, which is not a
  string of the grammar, the handler registers the string: a second row is stored, the
  step becomes \<open>chat\<close>, and the reply carries the token.
\<close>

theorem newline_email_is_registered:
  "ud_step bob_at_email = Some Email
   \<and> \<not> email_grammar ascii_only (ascii ''a@b.c'' @ [10])
   \<and> handle_message ascii_only bob_token (ascii ''a@b.c'' @ [10]) (bob_at_email, db_with_ann) =
       (TOKEN_BEFORE @ bob_token,
        bob_at_email\<lparr>ud_step := Some Chat, ud_email := Some (ascii ''a@b.c'' @ [10])\<rparr>,
        db_with_ann\<lparr>users := users db_with_ann @
           [\<lparr>u_id = 2, u_email = ascii ''a@b.c'' @ [10], u_api_token = Some bob_token,
             u_name = Some (ascii ''Bob''), u_conversation_history = Some []\<rparr>],
         users_seq := 2\<rparr>)
   \<and> TOKEN_BEFORE @ bob_token \<noteq> INVALID_FORMAT"
proof -
  have s: "ud_step bob_at_email = Some Email" by (simp add: bob_at_email_def)
  have v: "is_valid_email ascii_only (ascii ''a@b.c'' @ [10])"
    by (simp add: validator_defs ascii_def)
  have m: "ascii ''a@b.c'' @ [10] \<notin> set (map u_email (users db_with_ann))"
    by (simp add: example_defs)
  have n: "next_id db_with_ann = 2" by (simp add: next_id_def db_with_ann_def)
  have g: "generate_api_token bob_token = bob_token" by (simp add: generate_api_token_def)
  have b: "staged_name bob_at_email = ascii ''Bob''" by (simp add: staged_name_def bob_at_email_def)
  have r: "TOKEN_BEFORE @ bob_token \<noteq> INVALID_FORMAT"
    by (simp add: TOKEN_BEFORE_def INVALID_FORMAT_def)
  from handle_message_registers [OF s v m bob_token_not_in_db] s r
    email_grammar_no_final_newline [of ascii_only "ascii ''a@b.c''"]
  show ?thesis unfolding n g b by blast
qed

text \<open>
  Claim C8. After a successful registration (a message in the step \<open>email\<close> that moves
  the step to \<open>chat\<close>), the row read back from the store by the email holds that email,
  the token and the name that were written, and the empty string as history.
\<close>

theorem registration_round_trip:
  assumes "ud_step ud = Some Email"
    and "ud_step (fst (snd (handle_message U uuid4 e (ud, d)))) = Some Chat"
  shows "\<exists>r. select_user e (snd (snd (handle_message U uuid4 e (ud, d)))) = Some r
       \<and> u_email r = e \<and> u_api_token r = Some (generate_api_token uuid4)
       \<and> u_name r = Some (staged_name ud) \<and> u_conversation_history r = Some []"
proof -
  let ?r = "\<lparr>u_id = next_id d, u_email = e, u_api_token = Some (generate_api_token uuid4),
             u_name = Some (staged_name ud), u_conversation_history = Some []\<rparr>"
  from handle_message_email_chat [OF assms]
  have v: "is_valid_email U e" and m: "e \<notin> set (map u_email (users d))"
    and t: "Some (generate_api_token uuid4) \<notin> set (map u_api_token (users d))"
    by simp_all
  have "select_user e (d\<lparr>users := users d @ [?r], users_seq := next_id d\<rparr>) = Some ?r"
    using m by (rule select_user_inserted) simp
  then show ?thesis
    by (simp add: handle_message_registers [OF assms(1) v m t])
qed

theorem registration_round_trip_witness:
  "ud_step bob_at_email = Some Email
   \<and> ud_step (fst (snd (handle_message ascii_only bob_token bob_email (bob_at_email, empty_db))))
       = Some Chat
   \<and> (\<exists>r. select_user bob_email
             (snd (snd (handle_message ascii_only bob_token bob_email (bob_at_email, empty_db))))
           = Some r
        \<and> u_email r = bob_email \<and> u_api_token r = Some bob_token
        \<and> u_name r = Some (ascii ''Bob'') \<and> u_conversation_history r = Some [])"
proof -
  have s: "ud_step bob_at_email = Some Email" by (simp add: bob_at_email_def)
  have c: "ud_step (fst (snd (handle_message ascii_only bob_token bob_email (bob_at_email, empty_db))))
       = Some Chat"
    using bob_email_valid
    by (simp add: handle_message_def insert_user_def empty_db_def bob_at_email_def Let_def)
  have g: "generate_api_token bob_token = bob_token" by (simp add: generate_api_token_def)
  have b: "staged_name bob_at_email = ascii ''Bob''" by (simp add: staged_name_def bob_at_email_def)
  from registration_round_trip [OF s c] s c
  show ?thesis unfolding g b by blast
qed

text \<open>
  Claim C9. For all text inputs, the first reply of a fresh conversation is the name
  prompt and the step becomes \<open>name\<close>; the next text is stored as the staged name and
  the step becomes \<open>email\<close>.

  As stated this does not hold of a fresh conversation whose first event is a text
  message: the step defaults to \<open>name\<close>, so that text is taken as the name and the first
  reply is the thanks with the email prompt. What holds: on the empty context, \<open>start\<close>
  replies with the literal of line 86 and sets the step to \<open>name\<close>; the text that follows
  is stored as the staged name, the reply is the literal of line 102 around that text, and
  the step becomes \<open>email\<close>; and a text on the empty context, with no \<open>start\<close> before it,
  is handled in the same way as a text after \<open>start\<close>.
\<close>

theorem start_prompts_name_and_first_text_is_name:
  "start m0 (fresh_user_data, d) =
     ([1055, 1088, 1080, 1074, 1110, 1090, 33, 32, 1041, 1091, 1076, 1100, 32,
       1083, 1072, 1089, 1082, 1072, 44, 32, 1074, 1074, 1077, 1076, 1110, 1090, 1100, 32,
       1074, 1072, 1096, 1077, 32, 1110, 1084, 39, 1103, 46],
      \<lparr>ud_step = Some Name, ud_name = None, ud_email = None\<rparr>, d)
   \<and> handle_message U uuid4 m (snd (start m0 (fresh_user_data, d))) =
       ([1044, 1103, 1082, 1091, 1102, 44, 32] @ m @
        [33, 32, 1058, 1077, 1087, 1077, 1088, 44, 32, 1073, 1091, 1076, 1100, 32,
         1083, 1072, 1089, 1082, 1072, 44, 32, 1074, 1074, 1077, 1076, 1110, 1090, 1100, 32,
         1074, 1072, 1096, 1091, 32, 1077, 1083, 1077, 1082, 1090, 1088, 1086, 1085, 1085, 1091,
         32, 1087, 1086, 1096, 1090, 1091, 46],
        \<lparr>ud_step = Some Email, ud_name = Some m, ud_email = None\<rparr>, d)
   \<and> handle_message U uuid4 m (fresh_user_data, d) =
       handle_message U uuid4 m (snd (start m0 (fresh_user_data, d)))"
  by (simp add: start_def handle_message_def fresh_user_data_def NAME_PROMPT_def
      THANKS_BEFORE_def THANKS_AFTER_def)

text \<open>
  The run that refutes the claim as stated: the text \<^verbatim>\<open>Bob\<close> as the first event of a
  conversation. The reply is not the name prompt and the step is \<open>email\<close>.
\<close>

theorem first_text_without_start_counterexample:
  "fst (handle_message ascii_only bob_token (ascii ''Bob'') (fresh_user_data, empty_db)) \<noteq> NAME_PROMPT
   \<and> ud_step (fst (snd (handle_message ascii_only bob_token (ascii ''Bob'')
        (fresh_user_data, empty_db)))) = Some Email"
  by (simp add: handle_message_def fresh_user_data_def NAME_PROMPT_def THANKS_BEFORE_def)

text \<open>
  Claim C10. In the step \<open>email\<close>, when the email is valid and new but the token that is
  drawn is the token of a stored record, the insertion is refused and the handler does
  what it does for a duplicate email: the reply is the duplicate-email reply, the step
  stays \<open>email\<close> and the store is unchanged.
\<close>

theorem token_collision_reported_as_duplicate:
  assumes "ud_step ud = Some Email" and "is_valid_email U e"
    and "e \<notin> set (map u_email (users d))"
    and "Some (generate_api_token uuid4) \<in> set (map u_api_token (users d))"
  shows "handle_message U uuid4 e (ud, d) = (ALREADY_REGISTERED, ud, d)"
  using assms handle_message_rejected [of ud U e d uuid4] by blast

theorem token_collision_reported_as_duplicate_witness:
  "ud_step bob_at_email = Some Email \<and> is_valid_email ascii_only bob_email
   \<and> bob_email \<notin> set (map u_email (users db_with_ann))
   \<and> Some (generate_api_token ann_token) \<in> set (map u_api_token (users db_with_ann))
   \<and> handle_message ascii_only ann_token bob_email (bob_at_email, db_with_ann)
       = (ALREADY_REGISTERED, bob_at_email, db_with_ann)"
proof -
  have s: "ud_step bob_at_email = Some Email" by (simp add: bob_at_email_def)
  have t: "Some (generate_api_token ann_token) \<in> set (map u_api_token (users db_with_ann))"
    by (simp add: db_with_ann_def generate_api_token_def)
  from s bob_email_valid bob_not_in_db t
    token_collision_reported_as_duplicate [OF s bob_email_valid bob_not_in_db t]
  show ?thesis by blast
qed

end
